theory Spec2Isabelle
  imports Complex_Main "HOL-Library.Sublist"
begin

section \<open>Python values and built-ins used by Nature\_Poster\_Videos.py\<close>

text \<open>
  Exceptions the script can raise. Nothing in the script catches an exception, so
  every one of them ends the run.
\<close>

datatype error =
    TypeError
  | AttributeError
  | JSONDecodeError
  | ConnectionError
  | GraphAPIError
  | ProgrammingError

text \<open>
  A cell of an SQLite row, as the \<open>sqlite3\<close> module hands it to Python
  (\<open>None\<close>, \<open>int\<close>, \<open>float\<close>, \<open>str\<close>). Python floats are modelled
  by exact reals.
\<close>

datatype sql_value = Null | Integer int | Real real | Text string

text \<open>The value \<open>json.loads\<close> returns.\<close>

datatype json =
    JNull
  | JBool bool
  | JNumber real
  | JString string
  | JArray "json list"
  | JObject "(string \<times> json) list"

text \<open>Python's truth value of a parsed JSON value (\<open>if id_from_json:\<close>).\<close>

fun truthy :: "json \<Rightarrow> bool" where
  "truthy JNull = False"
| "truthy (JBool b) = b"
| "truthy (JNumber x) = (x \<noteq> 0)"
| "truthy (JString s) = (s \<noteq> [])"
| "truthy (JArray xs) = (xs \<noteq> [])"
| "truthy (JObject kvs) = (kvs \<noteq> [])"

text \<open>
  A Python string is held as the bytes of its UTF-8 encoding; cutting at a space,
  comparing two strings and looking for a substring give the same answers on the
  bytes as on the code points. \<open>str.lower()\<close> on ASCII text moves the letters
  \<open>A\<close> to \<open>Z\<close> to \<open>a\<close> to \<open>z\<close> and leaves every other character.
\<close>

definition lower_char :: "char \<Rightarrow> char" where
  "lower_char c =
     (if 65 \<le> (of_char c :: nat) \<and> (of_char c :: nat) \<le> 90
      then char_of ((of_char c :: nat) + 32) else c)"

definition is_ascii :: "string \<Rightarrow> bool" where
  "is_ascii s = list_all (\<lambda>c. (of_char c :: nat) < 128) s"

definition ascii_lower :: "string \<Rightarrow> string" where
  "ascii_lower s = map lower_char s"

text \<open>
  \<open>s.split(sep)\<close> with a one-character separator: every occurrence of the
  separator ends a token, so two separators in a row give an empty token and the
  empty string gives one empty token.
\<close>

fun split :: "char \<Rightarrow> string \<Rightarrow> string list" where
  "split sep [] = [[]]"
| "split sep (c # cs) =
     (if c = sep then [] # split sep cs
      else (case split sep cs of
              [] \<Rightarrow> [[c]]
            | t # ts \<Rightarrow> (c # t) # ts))"

text \<open>\<open>sep.join(tokens)\<close>, the inverse of \<open>split\<close>.\<close>

fun join :: "char \<Rightarrow> string list \<Rightarrow> string" where
  "join sep [] = []"
| "join sep [t] = t"
| "join sep (t # u # us) = t @ sep # join sep (u # us)"

text \<open>
  \<open>sub in s\<close> for two strings is \<^const>\<open>sublist\<close>: \<open>sub\<close> occurs in \<open>s\<close> as
  a contiguous run.
\<close>

text \<open>\<open>str(n)\<close> for an integer: its decimal digits, with a minus sign below zero.\<close>

fun str_nat :: "nat \<Rightarrow> string" where
  "str_nat n =
     (if n < 10 then [char_of (48 + n)]
      else str_nat (n div 10) @ [char_of (48 + n mod 10)])"

declare str_nat.simps [simp del]

definition str_int :: "int \<Rightarrow> string" where
  "str_int i = (if i < 0 then CHR ''-'' # str_nat (nat (- i)) else str_nat (nat i))"

section \<open>The filter helpers\<close>

text \<open>
  \<open>acceptable_extension\<close> (lines 60 to 71):
  \<open>any(extensions in video_extension for extensions in extensions)\<close>. The operand
  on the right of \<open>in\<close> is the string \<open>video_extension\<close>, so each test is a
  substring test.
\<close>

definition extensions :: "string list" where
  "extensions = [''mp4'', ''mov'', ''wmv'', ''avi'']"

definition acceptable_extension :: "string \<Rightarrow> bool" where
  "acceptable_extension video_extension =
     list_ex (\<lambda>ext. sublist ext video_extension) extensions"

section \<open>The collaborators and the state of a run\<close>

text \<open>
  One entry of \<open>api.get_video_entries()\<close>, with the attributes the script reads.
  The field \<open>id'\<close> is \<open>video.id\<close>.
\<close>

record video =
  id' :: int
  description :: string
  videographer :: string
  url :: string
  extension :: string
  link :: string
  duration :: int

text \<open>
  What the outside world answers. None of these libraries and services is part of
  the repository, so each is a parameter:
  \<^item> \<open>requests_get u\<close>: \<open>requests.get(u)\<close> raises, or gives a response whose
    \<open>content-length\<close> header is absent (\<open>None\<close>) or a byte count;
  \<^item> \<open>requests_post l\<close>: the \<open>requests.post\<close> of \<open>post_to_fb\<close> for the video
    link \<open>l\<close> raises, or gives the response text;
  \<^item> \<open>json_loads\<close>: \<open>json.loads\<close>, \<open>None\<close> where it raises;
  \<^item> \<open>str_lower\<close>: \<open>str.lower()\<close> on text that has characters outside ASCII,
    where Unicode's case mapping decides;
  \<^item> \<open>put_object parent message\<close>: whether \<open>GraphAPI.put_object\<close> succeeds
    (it raises \<open>GraphAPIError\<close> otherwise);
  \<^item> \<open>now\<close>: the formatted \<open>datetime.now()\<close>;
  \<^item> \<open>get_video_entries n\<close>: the page \<open>api.get_video_entries()\<close> returns after
    \<open>n\<close> calls of \<open>api.search_next_page()\<close>; an exhausted source gives empty pages;
  \<^item> \<open>ID_column\<close>: the position of the column \<open>ID\<close> in the table
    \<open>Nature_Bot_Logged_FB_Posts\<close>, whose schema lives in the database file.
\<close>

record env =
  requests_get :: "string \<Rightarrow> error + nat option"
  requests_post :: "string \<Rightarrow> error + string"
  json_loads :: "string \<Rightarrow> json option"
  str_lower :: "string \<Rightarrow> string"
  put_object :: "string \<Rightarrow> string \<Rightarrow> bool"
  now :: string
  get_video_entries :: "nat \<Rightarrow> video list"
  ID_column :: nat

text \<open>
  \<open>str.lower()\<close>: the ASCII mapping on ASCII text, Unicode's mapping elsewhere.
\<close>

definition lower :: "env \<Rightarrow> string \<Rightarrow> string" where
  "lower e s = (if is_ascii s then ascii_lower s else str_lower e s)"

text \<open>
  The state a run reads and changes: the two tables of the database as the open
  connection sees them, what the last \<open>connect.commit()\<close> made durable, whether
  the connection is closed, and the calls made to Facebook (the links passed to
  \<open>post_to_fb\<close>, and the captions \<open>put_object\<close> accepted).
\<close>

record state =
  Bad_Words :: "sql_value list list"
  Nature_Bot_Logged_FB_Posts :: "sql_value list list"
  committed :: "sql_value list list"
  closed :: bool
  fb_posts :: "string list"
  fb_captions :: "(string \<times> string) list"

section \<open>The functions of the script\<close>

text \<open>
  \<open>no_badwords\<close> (lines 26 to 40). The rows of \<open>Bad_Words\<close> are flattened into
  one list; the loop \<open>for word in sentence: word.lower()\<close> discards its results
  and changes nothing; the result is
  \<open>not any(word in sentence for word in Bad_Words_List)\<close>, where \<open>sentence\<close> is a
  list, so \<open>in\<close> is list membership.
\<close>

definition no_badwords :: "state \<Rightarrow> string list \<Rightarrow> bool" where
  "no_badwords st sentence =
     (let Bad_Words_List = concat (Bad_Words st)
      in \<not> list_ex (\<lambda>word. word \<in> set (map Text sentence)) Bad_Words_List)"

text \<open>
  \<open>get_file_size\<close> (lines 43 to 57): \<open>requests.get(url)\<close>, then
  \<open>float(headers.get('content-length')) / 1000\<close>. \<open>float(None)\<close> raises
  \<open>TypeError\<close>.
\<close>

definition get_file_size :: "env \<Rightarrow> string \<Rightarrow> error + real" where
  "get_file_size e u =
     (case requests_get e u of
        Inl err \<Rightarrow> Inl err
      | Inr None \<Rightarrow> Inl TypeError
      | Inr (Some content_length) \<Rightarrow> Inr (real content_length / 1000))"

text \<open>
  \<open>get_post_id_from_json\<close> (lines 93 to 108). \<open>dict.get('id')\<close> is \<open>None\<close> for
  a missing key, and a JSON \<open>null\<close> is \<open>None\<close> too; a parsed value that is not a
  dict has no \<open>get\<close>.
\<close>

definition get_post_id_from_json :: "env \<Rightarrow> string \<Rightarrow> error + json option" where
  "get_post_id_from_json e request =
     (case json_loads e request of
        None \<Rightarrow> Inl JSONDecodeError
      | Some (JObject return_text_dict) \<Rightarrow>
          (case map_of return_text_dict ''id'' of
             None \<Rightarrow> Inr None
           | Some id_from_json \<Rightarrow>
               if truthy id_from_json then Inr (Some id_from_json) else Inr None)
      | Some _ \<Rightarrow> Inl AttributeError)"

text \<open>
  \<open>edit_fb_post_caption\<close> (lines 111 to 133): one \<open>put_object\<close> call on
  \<open>f'{fb_page_id}_{post_id}'\<close> with the caption text.
\<close>

definition fb_page_id :: string where
  "fb_page_id = ''101111365975816''"

definition GitHub_Link :: string where
  "GitHub_Link = ''https://github.com/Voltaic314/Nature-Poster''"

definition caption :: "string \<Rightarrow> string \<Rightarrow> string" where
  "caption video_description video_permalink =
     ''Description: '' @ video_description @ [CHR 0x0A, CHR 0x0A]
     @ ''Pexels image link: '' @ video_permalink @ [CHR 0x0A, CHR 0x0A]
     @ ''P.S. This Facebook post was created by a bot. To learn more about how it works,''
     @ '' check out the GitHub page here: '' @ GitHub_Link"

definition edit_fb_post_caption ::
  "env \<Rightarrow> state \<Rightarrow> string \<Rightarrow> string \<Rightarrow> string \<Rightarrow> error + state" where
  "edit_fb_post_caption e st post_id video_description video_permalink =
     (let parent_object = fb_page_id @ ''_'' @ post_id;
          message = caption video_description video_permalink
      in if put_object e parent_object message
         then Inr (st\<lparr>fb_captions := fb_captions st @ [(parent_object, message)]\<rparr>)
         else Inl GraphAPIError)"

text \<open>
  \<open>id_is_in_db\<close> (lines 136 to 152):
  \<open>SELECT ID FROM table WHERE ID="id_string"\<close>, true when a row comes back.
  The script passes \<open>str(video.id)\<close>, digits with no quote in them, and the table
  holds the identifier as text.
\<close>

definition cell :: "sql_value list \<Rightarrow> nat \<Rightarrow> sql_value" where
  "cell row i = (if i < length row then row ! i else Null)"

definition id_is_in_db :: "env \<Rightarrow> sql_value list list \<Rightarrow> string \<Rightarrow> bool" where
  "id_is_in_db e table id_string =
     (let IDs_from_db = filter (\<lambda>row. cell row (ID_column e) = Text id_string) table
      in IDs_from_db \<noteq> [])"

text \<open>
  \<open>log_to_DB\<close> (lines 168 to 174): an \<open>INSERT\<close> with ten \<open>?\<close> placeholders.
  \<open>cursor.execute\<close> raises \<open>ProgrammingError\<close> (incorrect number of bindings
  supplied) unless the tuple has as many values as the statement has placeholders.
\<close>

definition log_to_DB :: "state \<Rightarrow> sql_value list \<Rightarrow> error + state" where
  "log_to_DB st formatted_tuple =
     (if length formatted_tuple \<noteq> 10 then Inl ProgrammingError
      else Inr (st\<lparr>Nature_Bot_Logged_FB_Posts :=
                      Nature_Bot_Logged_FB_Posts st @ [formatted_tuple]\<rparr>))"

text \<open>
  One pass through the body of the \<open>for\<close> loop of \<open>process_videos\<close> either goes
  on to the next video (\<open>continue\<close>), leaves the loop with the tuple to return
  (\<open>break\<close>), or raises.
\<close>

datatype step =
    Continue state
  | Break "sql_value list" state
  | Raise error state

fun state_of :: "step \<Rightarrow> state" where
  "state_of (Continue st) = st"
| "state_of (Break d st) = st"
| "state_of (Raise err st) = st"

text \<open>
  Lines 215 to 245, reached when no filter said \<open>continue\<close>. The link is posted
  (the call is recorded before its outcome is known), the identifier is read
  from the response, and \<open>fb_post_id in post_to_fb_request\<close> decides success:
  with a string on the right, \<open>in\<close> raises \<open>TypeError\<close> unless the left operand
  is a string too. The tuple \<open>data_to_log\<close> has nine values.
\<close>

definition publish_and_log :: "env \<Rightarrow> state \<Rightarrow> video \<Rightarrow> real \<Rightarrow> step" where
  "publish_and_log e st v video_file_size =
     (let st1 = st\<lparr>fb_posts := fb_posts st @ [link v]\<rparr> in
      case requests_post e (link v) of
        Inl err \<Rightarrow> Raise err st1
      | Inr post_to_fb_request \<Rightarrow>
          (case get_post_id_from_json e post_to_fb_request of
             Inl err \<Rightarrow> Raise err st1
           | Inr fb_post_id \<Rightarrow>
               (case fb_post_id of
                  Some (JString post_id) \<Rightarrow>
                    if \<not> sublist post_id post_to_fb_request then Continue st1
                    else
                      (case edit_fb_post_caption e st1 post_id (description v) (url v) of
                         Inl err \<Rightarrow> Raise err st1
                       | Inr st2 \<Rightarrow>
                           (let data_to_log =
                                  [Text (now e), Text post_to_fb_request,
                                   Text (description v), Text (videographer v),
                                   Text (str_int (id' v)), Text (url v), Text (url v),
                                   Text (link v), Real video_file_size]
                            in case log_to_DB st2 data_to_log of
                                 Inl err \<Rightarrow> Raise err st2
                               | Inr st3 \<Rightarrow>
                                   Break data_to_log
                                     (st3\<lparr>committed := Nature_Bot_Logged_FB_Posts st3,
                                           closed := True\<rparr>)))
                | _ \<Rightarrow> Raise TypeError st1)))"

text \<open>
  The body of the loop (lines 190 to 245). The size is fetched first, from
  \<open>video.url\<close>, for every video; then the five tests, each a \<open>continue\<close>.
\<close>

definition loop_body :: "env \<Rightarrow> state \<Rightarrow> video \<Rightarrow> step" where
  "loop_body e st v =
     (case get_file_size e (url v) of
        Inl err \<Rightarrow> Raise err st
      | Inr video_file_size \<Rightarrow>
          if \<not> acceptable_extension (extension v) then Continue st
          else if id_is_in_db e (Nature_Bot_Logged_FB_Posts st) (str_int (id' v))
            then Continue st
          else if video_file_size \<ge> 1000000 then Continue st
          else if duration v \<ge> 1200 then Continue st
          else if \<not> no_badwords st (split CHR '' '' (lower e (description v)))
            then Continue st
          else publish_and_log e st v video_file_size)"

text \<open>
  \<open>process_videos\<close> (lines 177 to 247): the loop over the page. It returns
  \<open>data_to_log\<close>, the empty list unless the loop was left by \<open>break\<close>.
\<close>

fun process_videos :: "env \<Rightarrow> state \<Rightarrow> video list \<Rightarrow> (error + sql_value list) \<times> state" where
  "process_videos e st [] = (Inr [], st)"
| "process_videos e st (v # videos) =
     (case loop_body e st v of
        Continue st' \<Rightarrow> process_videos e st' videos
      | Break data_to_log st' \<Rightarrow> (Inr data_to_log, st')
      | Raise err st' \<Rightarrow> (Inl err, st'))"

text \<open>
  The five tests of lines 198 to 213 taken together: no \<open>continue\<close> fires.
\<close>

definition passes_rules :: "env \<Rightarrow> state \<Rightarrow> video \<Rightarrow> real \<Rightarrow> bool" where
  "passes_rules e st v video_file_size =
     (acceptable_extension (extension v)
      \<and> \<not> id_is_in_db e (Nature_Bot_Logged_FB_Posts st) (str_int (id' v))
      \<and> video_file_size < 1000000
      \<and> duration v < 1200
      \<and> no_badwords st (split CHR '' '' (lower e (description v))))"

text \<open>
  The loop of \<open>main\<close> (lines 270 to 274): \<open>while not done\<close>, with
  \<open>done = process_videos(...)\<close> and a call of \<open>api.search_next_page()\<close> when
  \<open>done\<close> is falsy (the empty list). The argument \<open>n\<close> counts the calls of
  \<open>search_next_page\<close> made so far. The result is \<open>None\<close> when the loop never
  ends; otherwise the exception that ended the run, or \<open>()\<close>, with the number of
  next-page calls and the final state.
\<close>

partial_function (option) main_loop ::
  "env \<Rightarrow> nat \<Rightarrow> state \<Rightarrow> ((error + unit) \<times> nat \<times> state) option" where
  "main_loop e n st =
     (case process_videos e st (get_video_entries e n) of
        (Inl err, st') \<Rightarrow> Some (Inl err, n, st')
      | (Inr done, st') \<Rightarrow>
          if done \<noteq> [] then Some (Inr (), n, st')
          else main_loop e (Suc n) st')"

declare main_loop.simps [code]

section \<open>The rule of the specification for content safety\<close>

text \<open>
  The specification's wording of the content-safety rule, for comparison with
  \<open>no_badwords\<close>: the description is cut at whitespace (runs of whitespace
  separate tokens and give no empty token), each token is lower-cased, and the
  candidate is safe when no token is an entry of the bad-word set.
\<close>

definition is_whitespace :: "char \<Rightarrow> bool" where
  "is_whitespace c = (c \<in> set [CHR '' '', CHR 0x09, CHR 0x0A, CHR 0x0B, CHR 0x0C, CHR 0x0D])"

definition whitespace_tokens :: "string \<Rightarrow> string list" where
  "whitespace_tokens s =
     filter (\<lambda>t. t \<noteq> [])
       (split CHR '' '' (map (\<lambda>c. if is_whitespace c then CHR '' '' else c) s))"

definition spec_content_safe :: "env \<Rightarrow> string list \<Rightarrow> string \<Rightarrow> bool" where
  "spec_content_safe e bad_words d =
     (\<not> list_ex (\<lambda>tok. lower e tok \<in> set bad_words) (whitespace_tokens d))"

section \<open>Example runs\<close>

definition ok_response :: string where
  \<open>ok_response = ''{"id": "42"}''\<close>

definition error_response :: string where
  \<open>error_response = ''{"error": {"code": 100}}''\<close>

definition heron :: video where
  "heron = \<lparr>id' = 1, description = ''grey heron'', videographer = ''Ann'',
     url = ''https://www.pexels.com/video/1/'', extension = ''gif'',
     link = ''https://cdn.example/1.gif'', duration = 30\<rparr>"

definition otter :: video where
  "otter = \<lparr>id' = 2, description = ''river otter'', videographer = ''Bo'',
     url = ''https://www.pexels.com/video/2/'', extension = ''mp4'',
     link = ''https://cdn.example/2.mp4'', duration = 45\<rparr>"

definition eagle :: video where
  "eagle = \<lparr>id' = 3, description = ''a Lovely Eagle soaring'', videographer = ''Cy'',
     url = ''https://www.pexels.com/video/3/'', extension = ''mp4'',
     link = ''https://cdn.example/3.mp4'', duration = 1199\<rparr>"

text \<open>
  A world where every fetch answers 5000000 bytes, Facebook answers
  \<open>ok_response\<close> and accepts the caption, the first page holds the three
  videos and every later page is empty.
\<close>

definition example_env :: env where
  "example_env =
     \<lparr>requests_get = (\<lambda>u. Inr (Some 5000000)),
      requests_post = (\<lambda>l. Inr ok_response),
      json_loads = (\<lambda>s. if s = ok_response then Some (JObject [(''id'', JString ''42'')])
                         else if s = error_response
                           then Some (JObject [(''error'', JObject [(''code'', JNumber 100)])])
                         else None),
      str_lower = (\<lambda>s. s),
      put_object = (\<lambda>parent message. True),
      now = ''11/04/2026 07:25:00'',
      get_video_entries = (\<lambda>n. if n = 0 then [heron, otter, eagle] else []),
      ID_column = 4\<rparr>"

text \<open>A database that has logged the video 2 and bans the word \<open>ugly\<close>.\<close>

definition otter_row :: "sql_value list" where
  "otter_row =
     [Text ''11/03/2026 07:25:00'', Text ''{}'', Text ''river otter'', Text ''Bo'',
      Text ''2'', Text ''https://www.pexels.com/video/2/'',
      Text ''https://www.pexels.com/video/2/'', Text ''https://cdn.example/2.mp4'',
      Real 5000, Null]"

definition example_state :: state where
  "example_state =
     \<lparr>Bad_Words = [[Text ''ugly'']],
      Nature_Bot_Logged_FB_Posts = [otter_row],
      committed = [otter_row],
      closed = False,
      fb_posts = [],
      fb_captions = []\<rparr>"

text \<open>Two more rows for the table of logged posts.\<close>

definition fox_row :: "sql_value list" where
  "fox_row =
     [Text ''11/02/2026 07:25:00'', Text ''{}'', Text ''red fox'', Text ''Di'',
      Text ''7'', Text ''https://www.pexels.com/video/7/'',
      Text ''https://www.pexels.com/video/7/'', Text ''https://cdn.example/7.mp4'',
      Real 4000, Null]"

definition eagle_row :: "sql_value list" where
  "eagle_row =
     [Text ''11/04/2026 07:25:00'', Text ok_response, Text ''a Lovely Eagle soaring'',
      Text ''Cy'', Text ''3'', Text ''https://www.pexels.com/video/3/'',
      Text ''https://www.pexels.com/video/3/'', Text ''https://cdn.example/3.mp4'',
      Real 5000, Null]"

text \<open>A description whose two words are separated by a tab.\<close>

definition tab_description :: string where
  "tab_description = ''a'' @ [CHR 0x09] @ ''lovely''"

section \<open>Tokens\<close>

text \<open>
  \<open>split\<close> cuts exactly at the separator: no token holds it, and joining the
  tokens with it gives the string back. Lower-casing commutes with cutting at
  the space character.
\<close>

lemma split_not_Nil: "split sep s \<noteq> []"
  by (induction s) (auto split: list.splits)

lemma lower_char_space: "lower_char c = CHR '' '' \<longleftrightarrow> c = CHR '' ''"
proof (cases "65 \<le> (of_char c :: nat) \<and> (of_char c :: nat) \<le> 90")
  case True
  then have "(of_char (lower_char c) :: nat) = of_char c + 32"
    by (simp add: lower_char_def)
  with True have "(of_char (lower_char c) :: nat) \<noteq> of_char (CHR '' '')"
    by simp
  then have "lower_char c \<noteq> CHR '' ''"
    by auto
  moreover from True have "c \<noteq> CHR '' ''"
    by auto
  ultimately show ?thesis
    by simp
next
  case False
  then show ?thesis
    by (auto simp: lower_char_def)
qed

lemma ascii_lower_simps:
  "ascii_lower [] = []" "ascii_lower (c # cs) = lower_char c # ascii_lower cs"
  by (simp_all add: ascii_lower_def)

lemma split_ascii_lower:
  "split CHR '' '' (ascii_lower s) = map ascii_lower (split CHR '' '' s)"
proof (induction s)
  case Nil
  show ?case by (simp add: ascii_lower_simps)
next
  case (Cons c cs)
  obtain t ts where ts: "split CHR '' '' cs = t # ts"
    using split_not_Nil [of "CHR '' ''" cs] by (cases "split CHR '' '' cs") auto
  with Cons have "split CHR '' '' (ascii_lower cs) = ascii_lower t # map ascii_lower ts"
    by simp
  with ts show ?case
    by (simp add: ascii_lower_simps lower_char_space)
qed

lemma lower_ascii: "is_ascii s \<Longrightarrow> lower e s = ascii_lower s"
  by (simp add: lower_def)

lemma split_no_sep: "t \<in> set (split sep s) \<Longrightarrow> sep \<notin> set t"
proof (induction s arbitrary: t)
  case Nil
  then show ?case by simp
next
  case (Cons c cs)
  obtain u us where us: "split sep cs = u # us"
    using split_not_Nil [of sep cs] by (cases "split sep cs") auto
  with Cons show ?case
    by (auto split: if_splits)
qed

lemma join_split: "join sep (split sep s) = s"
proof (induction s)
  case Nil
  show ?case by simp
next
  case (Cons c cs)
  obtain u us where us: "split sep cs = u # us"
    using split_not_Nil [of sep cs] by (cases "split sep cs") auto
  with Cons show ?case
    by (cases us) auto
qed

lemma no_badwords_iff:
  "no_badwords st sentence \<longleftrightarrow> \<not> (\<exists>tok \<in> set sentence. Text tok \<in> set (concat (Bad_Words st)))"
  by (auto simp: no_badwords_def Let_def list_ex_iff)

section \<open>The loop body\<close>

text \<open>
  With the size in hand the body publishes exactly when the five tests pass; a
  failed fetch raises before any test is made.
\<close>

lemma loop_body_passes:
  "get_file_size e (url v) = Inr s \<Longrightarrow>
     loop_body e st v = (if passes_rules e st v s then publish_and_log e st v s else Continue st)"
  by (simp add: loop_body_def passes_rules_def)

lemma loop_body_probe_fails:
  "get_file_size e (url v) = Inl err \<Longrightarrow> loop_body e st v = Raise err st"
  by (simp add: loop_body_def)

lemma log_to_DB_nine: "length t = 9 \<Longrightarrow> log_to_DB st t = Inl ProgrammingError"
  by (simp add: log_to_DB_def)

lemma publish_and_log_logs:
  assumes "requests_post e (link v) = Inr text"
    and "get_post_id_from_json e text = Inr (Some (JString pid))"
    and "sublist pid text"
    and "put_object e (fb_page_id @ ''_'' @ pid) (caption (description v) (url v))"
  shows "publish_and_log e st v s =
           Raise ProgrammingError
             (st\<lparr>fb_posts := fb_posts st @ [link v],
                 fb_captions := fb_captions st
                    @ [(fb_page_id @ ''_'' @ pid, caption (description v) (url v))]\<rparr>)"
  using assms
  by (simp add: publish_and_log_def edit_fb_post_caption_def log_to_DB_def Let_def)

lemma publish_and_log_caption_fails:
  assumes "requests_post e (link v) = Inr text"
    and "get_post_id_from_json e text = Inr (Some (JString pid))"
    and "sublist pid text"
    and "\<not> put_object e (fb_page_id @ ''_'' @ pid) (caption (description v) (url v))"
  shows "publish_and_log e st v s = Raise GraphAPIError (st\<lparr>fb_posts := fb_posts st @ [link v]\<rparr>)"
  using assms
  by (simp add: publish_and_log_def edit_fb_post_caption_def Let_def)

lemma publish_and_log_no_id:
  assumes "requests_post e (link v) = Inr text"
    and "get_post_id_from_json e text = Inr None"
  shows "publish_and_log e st v s = Raise TypeError (st\<lparr>fb_posts := fb_posts st @ [link v]\<rparr>)"
  using assms
  by (simp add: publish_and_log_def Let_def)

lemma publish_and_log_cases:
  "publish_and_log e st v s = Continue (st\<lparr>fb_posts := fb_posts st @ [link v]\<rparr>)
   \<or> (\<exists>err. publish_and_log e st v s = Raise err (st\<lparr>fb_posts := fb_posts st @ [link v]\<rparr>))
   \<or> (\<exists>c. publish_and_log e st v s = Raise ProgrammingError (st\<lparr>fb_posts := fb_posts st @ [link v], fb_captions := fb_captions st @ [c]\<rparr>))"
  by (auto simp: publish_and_log_def Let_def log_to_DB_def edit_fb_post_caption_def split: sum.splits option.splits json.splits)

lemma publish_and_log_posts:
  "fb_posts (state_of (publish_and_log e st v s)) = fb_posts st @ [link v]"
  using publish_and_log_cases [of e st v s] by auto

lemma publish_and_log_tables:
  "Nature_Bot_Logged_FB_Posts (state_of (publish_and_log e st v s)) = Nature_Bot_Logged_FB_Posts st
   \<and> Bad_Words (state_of (publish_and_log e st v s)) = Bad_Words st
   \<and> committed (state_of (publish_and_log e st v s)) = committed st
   \<and> closed (state_of (publish_and_log e st v s)) = closed st"
  using publish_and_log_cases [of e st v s] by auto

lemma publish_and_log_not_Break: "publish_and_log e st v s \<noteq> Break d st'"
  using publish_and_log_cases [of e st v s] by auto

lemma loop_body_not_Break: "loop_body e st v \<noteq> Break d st'"
  by (cases "get_file_size e (url v)")
     (simp_all add: loop_body_probe_fails loop_body_passes publish_and_log_not_Break)

lemma loop_body_tables:
  "Nature_Bot_Logged_FB_Posts (state_of (loop_body e st v)) = Nature_Bot_Logged_FB_Posts st
   \<and> Bad_Words (state_of (loop_body e st v)) = Bad_Words st
   \<and> committed (state_of (loop_body e st v)) = committed st
   \<and> closed (state_of (loop_body e st v)) = closed st"
  by (cases "get_file_size e (url v)")
     (simp_all add: loop_body_probe_fails loop_body_passes publish_and_log_tables)

lemma process_videos_tables:
  "process_videos e st vs = (r, st') \<Longrightarrow>
     Nature_Bot_Logged_FB_Posts st' = Nature_Bot_Logged_FB_Posts st
     \<and> Bad_Words st' = Bad_Words st \<and> committed st' = committed st \<and> closed st' = closed st
     \<and> (r = Inr [] \<or> (\<exists>err. r = Inl err))"
proof (induction vs arbitrary: st)
  case Nil
  then show ?case by auto
next
  case (Cons v vs)
  show ?case
  proof (cases "loop_body e st v")
    case (Continue st1)
    with Cons.prems have "process_videos e st1 vs = (r, st')" by simp
    from Cons.IH [OF this] loop_body_tables [of e st v] Continue show ?thesis by simp
  next
    case (Break d st1)
    then show ?thesis by (simp add: loop_body_not_Break)
  next
    case (Raise err st1)
    with Cons.prems loop_body_tables [of e st v] show ?thesis by auto
  qed
qed

lemma main_loop_Some:
  assumes "main_loop e n st = Some y"
  shows "(\<exists>err. fst y = Inl err)
     \<and> Nature_Bot_Logged_FB_Posts (snd (snd y)) = Nature_Bot_Logged_FB_Posts st
     \<and> committed (snd (snd y)) = committed st"
proof (rule main_loop.raw_induct
    [where P = "\<lambda>e n st y. (\<exists>err. fst y = Inl err)
       \<and> Nature_Bot_Logged_FB_Posts (snd (snd y)) = Nature_Bot_Logged_FB_Posts st
       \<and> committed (snd (snd y)) = committed st"])
  show "main_loop e n st = Some y" by (rule assms)
next
  fix f :: "env \<Rightarrow> nat \<Rightarrow> state \<Rightarrow> ((error + unit) \<times> nat \<times> state) option"
  fix e n st y
  assume IH: "\<And>e n st y. f e n st = Some y \<Longrightarrow>
      (\<exists>err. fst y = Inl err)
       \<and> Nature_Bot_Logged_FB_Posts (snd (snd y)) = Nature_Bot_Logged_FB_Posts st
       \<and> committed (snd (snd y)) = committed st"
  assume step: "(case process_videos e st (get_video_entries e n) of
        (Inl err, st') \<Rightarrow> Some (Inl err, n, st')
      | (Inr done, st') \<Rightarrow>
          if done \<noteq> [] then Some (Inr (), n, st')
          else f e (Suc n) st') = Some y"
  obtain r st1 where pv: "process_videos e st (get_video_entries e n) = (r, st1)"
    by (cases "process_videos e st (get_video_entries e n)") 
  from process_videos_tables [OF pv] have
    t: "Nature_Bot_Logged_FB_Posts st1 = Nature_Bot_Logged_FB_Posts st" "committed st1 = committed st"
    and r: "r = Inr [] \<or> (\<exists>err. r = Inl err)" by auto
  from r show "(\<exists>err. fst y = Inl err)
       \<and> Nature_Bot_Logged_FB_Posts (snd (snd y)) = Nature_Bot_Logged_FB_Posts st
       \<and> committed (snd (snd y)) = committed st"
  proof
    assume "r = Inr []"
    with step pv have "f e (Suc n) st1 = Some y" by simp
    from IH [OF this] t show ?thesis by simp
  next
    assume "\<exists>err. r = Inl err"
    then obtain err where "r = Inl err" ..
    with step pv t show ?thesis by auto
  qed
qed

lemma passes_rules_env:
  "ID_column e' = ID_column e \<Longrightarrow> str_lower e' = str_lower e \<Longrightarrow>
     passes_rules e' st v s = passes_rules e st v s"
  by (simp add: passes_rules_def id_is_in_db_def lower_def)

lemma get_file_size_env:
  "requests_get e' = requests_get e \<Longrightarrow> get_file_size e' u = get_file_size e u"
  by (simp add: get_file_size_def)

lemma process_videos_all_rejected:
  "\<forall>v \<in> set vs. \<exists>s. get_file_size e (url v) = Inr s \<and> \<not> passes_rules e st v s \<Longrightarrow>
     process_videos e st vs = (Inr [], st)"
  by (induction vs) (auto simp: loop_body_passes)

lemma main_loop_diverges:
  assumes pages: "\<And>n. process_videos e st (get_video_entries e n) = (Inr [], st)"
  shows "main_loop e n st = None"
proof (cases "main_loop e n st")
  case None
  then show ?thesis .
next
  case (Some y)
  have "e = e \<longrightarrow> st = st \<longrightarrow> False"
  proof (rule main_loop.raw_induct [where P = "\<lambda>e' n' st' y'. e' = e \<longrightarrow> st' = st \<longrightarrow> False"])
    show "main_loop e n st = Some y" by (rule Some)
  next
    fix f :: "env \<Rightarrow> nat \<Rightarrow> state \<Rightarrow> ((error + unit) \<times> nat \<times> state) option"
    fix e' n' st' y'
    assume IH: "\<And>a b c d. f a b c = Some d \<Longrightarrow> a = e \<longrightarrow> c = st \<longrightarrow> False"
    assume step: "(case process_videos e' st' (get_video_entries e' n') of
        (Inl err, st'') \<Rightarrow> Some (Inl err, n', st'')
      | (Inr done, st'') \<Rightarrow>
          if done \<noteq> [] then Some (Inr (), n', st'')
          else f e' (Suc n') st'') = Some y'"
    show "e' = e \<longrightarrow> st' = st \<longrightarrow> False"
    proof (intro impI)
      assume eq: "e' = e" "st' = st"
      with step pages [of n'] have "f e (Suc n') st = Some y'" by simp
      from IH [OF this] show False by simp
    qed
  qed
  then show ?thesis by simp
qed

lemma loop_body_duplicate:
  assumes "id_is_in_db e (Nature_Bot_Logged_FB_Posts st) (str_int (id' v))"
  shows "(\<forall>s. get_file_size e (url v) = Inr s \<longrightarrow> loop_body e st v = Continue st)
       \<and> (\<forall>err. get_file_size e (url v) = Inl err \<longrightarrow> loop_body e st v = Raise err st)
       \<and> state_of (loop_body e st v) = st"
  using assms
  by (cases "get_file_size e (url v)")
     (simp_all add: loop_body_probe_fails loop_body_passes passes_rules_def)

lemma get_file_size_Inr_iff:
  "get_file_size e u = Inr s \<longleftrightarrow> (\<exists>n. requests_get e u = Inr (Some n) \<and> s = real n / 1000)"
  by (auto simp: get_file_size_def split: sum.splits option.splits)

text \<open>
  The lookup of \<open>id_is_in_db\<close> in terms of the rows of the table, and what the
  duplicate test guards: every publish call, and an append by \<open>log_to_DB\<close>.
\<close>

lemma id_is_in_db_iff:
  "id_is_in_db e table id_string \<longleftrightarrow> (\<exists>row \<in> set table. cell row (ID_column e) = Text id_string)"
  by (auto simp: id_is_in_db_def Let_def filter_empty_conv)

lemma loop_body_posts:
  "state_of (loop_body e st v) = st
   \<or> (fb_posts (state_of (loop_body e st v)) = fb_posts st @ [link v]
      \<and> \<not> id_is_in_db e (Nature_Bot_Logged_FB_Posts st) (str_int (id' v)))"
proof (cases "get_file_size e (url v)")
  case (Inl err)
  then show ?thesis by (simp add: loop_body_probe_fails)
next
  case (Inr s)
  then show ?thesis
    by (auto simp: loop_body_passes publish_and_log_posts passes_rules_def)
qed

lemma process_videos_posts:
  "l \<in> set (fb_posts (snd (process_videos e st vs))) \<Longrightarrow>
     l \<in> set (fb_posts st)
     \<or> (\<exists>v \<in> set vs. l = link v
           \<and> \<not> id_is_in_db e (Nature_Bot_Logged_FB_Posts st) (str_int (id' v)))"
proof (induction vs arbitrary: st)
  case Nil
  then show ?case by simp
next
  case (Cons v vs)
  let ?st1 = "state_of (loop_body e st v)"
  have tab: "Nature_Bot_Logged_FB_Posts ?st1 = Nature_Bot_Logged_FB_Posts st"
    using loop_body_tables [of e st v] by simp
  have "l \<in> set (fb_posts ?st1)
     \<or> (\<exists>w \<in> set vs. l = link w
           \<and> \<not> id_is_in_db e (Nature_Bot_Logged_FB_Posts st) (str_int (id' w)))"
  proof (cases "loop_body e st v")
    case (Continue st')
    with Cons.prems have "l \<in> set (fb_posts (snd (process_videos e st' vs)))" by simp
    from Cons.IH [OF this] Continue tab show ?thesis by simp
  next
    case (Break d st')
    then show ?thesis by (simp add: loop_body_not_Break)
  next
    case (Raise err st')
    with Cons.prems show ?thesis by simp
  qed
  with loop_body_posts [of e st v] show ?case
    by auto
qed

lemma log_to_DB_keeps_distinct:
  assumes "distinct (map (\<lambda>row. cell row (ID_column e)) (Nature_Bot_Logged_FB_Posts st))"
    and "\<not> id_is_in_db e (Nature_Bot_Logged_FB_Posts st) x"
    and "cell t (ID_column e) = Text x"
    and "log_to_DB st t = Inr st'"
  shows "distinct (map (\<lambda>row. cell row (ID_column e)) (Nature_Bot_Logged_FB_Posts st'))"
proof -
  from assms(4) have "Nature_Bot_Logged_FB_Posts st' = Nature_Bot_Logged_FB_Posts st @ [t]"
    by (auto simp: log_to_DB_def split: if_splits)
  with assms(1-3) show ?thesis
    by (auto simp: id_is_in_db_iff)
qed

section \<open>Facts about the example runs\<close>

lemma size_example: "get_file_size example_env u = Inr 5000"
  by (simp add: get_file_size_def example_env_def)

lemma heron_rejected: "\<not> passes_rules example_env example_state heron 5000"
  by (simp add: passes_rules_def heron_def acceptable_extension_def extensions_def sublist_code)

lemma str_int_2: "str_int 2 = ''2''" by code_simp
lemma str_int_3: "str_int 3 = ''3''" by code_simp

lemma otter_rejected: "\<not> passes_rules example_env example_state otter 5000"
  by (simp add: passes_rules_def otter_def str_int_2 id_is_in_db_def example_env_def example_state_def otter_row_def cell_def)

lemma eagle_ascii: "is_ascii (description eagle)"
  by code_simp

lemma eagle_ascii_lower: "ascii_lower (description eagle) = ''a lovely eagle soaring''"
  by code_simp

lemma eagle_lower: "lower e (description eagle) = ''a lovely eagle soaring''"
  by (simp add: lower_ascii [OF eagle_ascii] eagle_ascii_lower)

lemma eagle_accepted: "passes_rules example_env example_state eagle 5000"
  by (simp add: passes_rules_def eagle_lower no_badwords_def)
     (simp add: eagle_def str_int_3 id_is_in_db_def example_env_def example_state_def otter_row_def cell_def
        acceptable_extension_def extensions_def sublist_code)

lemma loads_error_response:
  "json_loads example_env error_response
     = Some (JObject [(''error'', JObject [(''code'', JNumber 100)])])"
  by (simp add: example_env_def ok_response_def error_response_def)

lemma loads_ok_response:
  "json_loads example_env ok_response = Some (JObject [(''id'', JString ''42'')])"
  by (simp add: example_env_def)

lemma eagle_tests:
  "acceptable_extension (extension eagle)"
  "\<not> id_is_in_db (example_env\<lparr>requests_get := g\<rparr>) (Nature_Bot_Logged_FB_Posts example_state) (str_int (id' eagle))"
  "no_badwords example_state (split CHR '' '' (lower e (description eagle)))"
  using eagle_accepted
  by (simp_all add: passes_rules_def id_is_in_db_def eagle_lower)

lemma example_state_posts: "fb_posts example_state = []" "fb_captions example_state = []"
  by (simp_all add: example_state_def)

lemma notmp4_accepted:
  "passes_rules example_env example_state (eagle\<lparr>extension := ''notmp4''\<rparr>) 5000"
  using eagle_accepted
  by (simp add: passes_rules_def acceptable_extension_def extensions_def sublist_code)

lemma example_page: "get_video_entries example_env 0 = [heron, otter, eagle]"
  by (simp add: example_env_def)

lemma post_example: "requests_post example_env l = Inr ok_response"
  by (simp add: example_env_def)

lemma get_post_id_ok:
  "get_post_id_from_json example_env ok_response = Inr (Some (JString ''42''))"
  by (simp add: get_post_id_from_json_def loads_ok_response)

lemma id_in_ok_response: "sublist ''42'' ok_response"
  by (simp add: ok_response_def sublist_code)

lemma put_example: "put_object example_env parent message"
  by (simp add: example_env_def)

lemma eagle_logs:
  "loop_body example_env example_state eagle =
     Raise ProgrammingError
       (example_state\<lparr>fb_posts := [link eagle],
          fb_captions := [(fb_page_id @ ''_42'', caption (description eagle) (url eagle))]\<rparr>)"
  using publish_and_log_logs [OF post_example get_post_id_ok id_in_ok_response put_example,
      where v = eagle and st = example_state and s = 5000]
  by (simp add: loop_body_passes [OF size_example] eagle_accepted example_state_posts)

lemma heron_continue: "loop_body example_env example_state heron = Continue example_state"
  by (simp add: loop_body_passes [OF size_example] heron_rejected)

lemma otter_continue: "loop_body example_env example_state otter = Continue example_state"
  by (simp add: loop_body_passes [OF size_example] otter_rejected)

lemma eagle_caption_refused:
  "loop_body (example_env\<lparr>put_object := \<lambda>parent message. False\<rparr>) example_state eagle
     = Raise GraphAPIError (example_state\<lparr>fb_posts := [link eagle]\<rparr>)"
proof -
  let ?e = "example_env\<lparr>put_object := \<lambda>parent message. False\<rparr>"
  have size: "get_file_size ?e (url eagle) = Inr 5000"
    by (simp add: get_file_size_env [of ?e example_env] size_example)
  have rules: "passes_rules ?e example_state eagle 5000"
    by (simp add: passes_rules_env [of ?e example_env] eagle_accepted)
  have post: "requests_post ?e (link eagle) = Inr ok_response"
    by (simp add: post_example)
  have id: "get_post_id_from_json ?e ok_response = Inr (Some (JString ''42''))"
    using get_post_id_ok by (simp add: get_post_id_from_json_def)
  have no: "\<not> put_object ?e (fb_page_id @ ''_'' @ ''42'') (caption (description eagle) (url eagle))"
    by simp
  from publish_and_log_caption_fails [OF post id id_in_ok_response no, of example_state 5000]
  show ?thesis
    by (simp add: loop_body_passes [OF size] rules example_state_posts)
qed

lemma two_rows_otter:
  "otter_row \<in> set (Nature_Bot_Logged_FB_Posts
      (example_state\<lparr>Nature_Bot_Logged_FB_Posts := [fox_row, otter_row]\<rparr>))"
  "cell otter_row (ID_column example_env) = Text (str_int (id' otter))"
  by (simp_all add: example_env_def otter_row_def cell_def str_int_2 otter_def)

lemma two_rows_distinct:
  "distinct (map (\<lambda>row. cell row (ID_column example_env))
     (Nature_Bot_Logged_FB_Posts
        (example_state\<lparr>Nature_Bot_Logged_FB_Posts := [fox_row, otter_row]\<rparr>)))"
  by (simp add: example_env_def otter_row_def fox_row_def cell_def)

lemma eagle_row_fresh:
  "\<not> id_is_in_db example_env
       (Nature_Bot_Logged_FB_Posts
          (example_state\<lparr>Nature_Bot_Logged_FB_Posts := [fox_row, otter_row]\<rparr>)) ''3''"
  "cell eagle_row (ID_column example_env) = Text ''3''"
  "log_to_DB (example_state\<lparr>Nature_Bot_Logged_FB_Posts := [fox_row, otter_row]\<rparr>) eagle_row
     = Inr (example_state\<lparr>Nature_Bot_Logged_FB_Posts := [fox_row, otter_row, eagle_row]\<rparr>)"
  by (simp_all add: id_is_in_db_def example_env_def otter_row_def fox_row_def eagle_row_def
        cell_def log_to_DB_def)

lemma lovely_examples:
  "is_ascii ''a Lovely Eagle soaring''"
  "ascii_lower ''a Lovely Eagle soaring'' = ''a lovely eagle soaring''"
  "is_ascii ''A LOVELY eagle''"
  "ascii_lower ''A LOVELY eagle'' = ''a lovely eagle''"
  by code_simp+

lemma token_examples:
  "is_ascii ''a''" "ascii_lower ''a'' = ''a''"
  "is_ascii ''lovely''" "ascii_lower ''lovely'' = ''lovely''"
  by code_simp+

lemma tab_description_lower:
  "is_ascii tab_description" "ascii_lower tab_description = tab_description"
  unfolding tab_description_def by code_simp+

section \<open>The extension test\<close>

lemma acceptable_extension_iff:
  "acceptable_extension x \<longleftrightarrow> (\<exists>ext \<in> set extensions. \<exists>ps ss. x = ps @ ext @ ss)"
  by (simp add: acceptable_extension_def list_ex_iff sublist_def)

lemma acceptable_extension_member: "x \<in> set extensions \<Longrightarrow> acceptable_extension x"
  unfolding acceptable_extension_iff by (rule bexI [of _ x]) (auto intro: exI [of _ "[]"])

section \<open>The claims\<close>

text \<open>
  C3, as the specification states it: a candidate whose extension is not exactly
  one of \<open>mp4\<close>, \<open>mov\<close>, \<open>wmv\<close>, \<open>avi\<close> is rejected. The code tests whether
  one of the four occurs inside the extension, so the extension \<open>notmp4\<close>, which
  is not in the list, passes the test and the candidate is published.
\<close>

theorem acceptable_extension_takes_substrings:
  "''notmp4'' \<notin> set extensions
   \<and> acceptable_extension ''notmp4''
   \<and> fb_posts (state_of (loop_body example_env example_state (eagle\<lparr>extension := ''notmp4''\<rparr>)))
       = [link eagle]"
proof -
  have "''notmp4'' \<notin> set extensions"
    by (simp add: extensions_def)
  moreover have "acceptable_extension ''notmp4''"
    by (simp add: acceptable_extension_def extensions_def sublist_code)
  moreover have "fb_posts (state_of (loop_body example_env example_state (eagle\<lparr>extension := ''notmp4''\<rparr>)))
       = [link eagle]"
    using loop_body_passes [of example_env "eagle\<lparr>extension := ''notmp4''\<rparr>" 5000 example_state]
    by (simp add: size_example notmp4_accepted publish_and_log_posts example_state_posts)
  ultimately show ?thesis
    by simp
qed

text \<open>
  C9: the size and duration bounds are strict. For a candidate that passes the
  extension, duplicate and content-safety tests and whose size was computed as
  \<open>s\<close>, the body says \<open>continue\<close> exactly when \<open>s \<ge> 1000000\<close> or the duration is
  at least 1200, and posts the link exactly when both are below; in particular
  size 1000000 and duration 1200 are rejected, size 999999 and duration 1199
  reach the publish step.
\<close>

theorem size_and_duration_bounds_are_strict:
  assumes "get_file_size e (url v) = Inr s"
    and "acceptable_extension (extension v)"
    and "\<not> id_is_in_db e (Nature_Bot_Logged_FB_Posts st) (str_int (id' v))"
    and "no_badwords st (split CHR '' '' (lower e (description v)))"
  shows "(loop_body e st v = Continue st \<longleftrightarrow> s \<ge> 1000000 \<or> duration v \<ge> 1200)
       \<and> (fb_posts (state_of (loop_body e st v)) = fb_posts st @ [link v]
             \<longleftrightarrow> s < 1000000 \<and> duration v < 1200)
       \<and> (s = 1000000 \<longrightarrow> loop_body e st v = Continue st)
       \<and> (s = 999999 \<and> duration v < 1200
             \<longrightarrow> loop_body e st v = publish_and_log e st v s)
       \<and> (duration v = 1200 \<longrightarrow> loop_body e st v = Continue st)
       \<and> (duration v = 1199 \<and> s < 1000000
             \<longrightarrow> loop_body e st v = publish_and_log e st v s)"
proof -
  have p: "passes_rules e st v s \<longleftrightarrow> s < 1000000 \<and> duration v < 1200"
    using assms by (simp add: passes_rules_def)
  have ne: "publish_and_log e st v s \<noteq> Continue st"
  proof
    assume "publish_and_log e st v s = Continue st"
    then have "fb_posts (state_of (publish_and_log e st v s)) = fb_posts st" by simp
    then show False by (simp add: publish_and_log_posts)
  qed
  have lb: "loop_body e st v =
      (if s < 1000000 \<and> duration v < 1200 then publish_and_log e st v s else Continue st)"
    by (simp add: loop_body_passes [OF assms(1)] p)
  have c1: "loop_body e st v = Continue st \<longleftrightarrow> s \<ge> 1000000 \<or> duration v \<ge> 1200"
    using ne by (auto simp: lb)
  have c2: "fb_posts (state_of (loop_body e st v)) = fb_posts st @ [link v]
      \<longleftrightarrow> s < 1000000 \<and> duration v < 1200"
    by (auto simp: lb publish_and_log_posts)
  have c3: "s = 1000000 \<longrightarrow> loop_body e st v = Continue st"
    using c1 by simp
  have c4: "s = 999999 \<and> duration v < 1200 \<longrightarrow> loop_body e st v = publish_and_log e st v s"
    using lb by simp
  have c5: "duration v = 1200 \<longrightarrow> loop_body e st v = Continue st"
    using c1 by simp
  have c6: "duration v = 1199 \<and> s < 1000000 \<longrightarrow> loop_body e st v = publish_and_log e st v s"
    using lb by simp
  from c1 c2 c3 c4 c5 c6 show ?thesis
    by blast
qed

theorem size_and_duration_bounds_witness:
  "loop_body (example_env\<lparr>requests_get := \<lambda>u. Inr (Some 1000000000)\<rparr>) example_state eagle
     = Continue example_state
   \<and> fb_posts (state_of (loop_body
          (example_env\<lparr>requests_get := \<lambda>u. Inr (Some 999999000)\<rparr>) example_state eagle))
     = [link eagle]
   \<and> loop_body (example_env\<lparr>requests_get := \<lambda>u. Inr (Some 999999000)\<rparr>) example_state
          (eagle\<lparr>duration := 1200\<rparr>)
     = Continue example_state"
proof -
  let ?at = "example_env\<lparr>requests_get := \<lambda>u. Inr (Some 1000000000)\<rparr>"
  let ?below = "example_env\<lparr>requests_get := \<lambda>u. Inr (Some 999999000)\<rparr>"
  let ?long = "eagle\<lparr>duration := 1200\<rparr>"
  have s1: "get_file_size ?at (url eagle) = Inr 1000000"
    by (simp add: get_file_size_def)
  have s2: "get_file_size ?below (url eagle) = Inr 999999"
    by (simp add: get_file_size_def)
  have s3: "get_file_size ?below (url ?long) = Inr 999999"
    by (simp add: get_file_size_def)
  have d: "duration eagle = 1199" "fb_posts example_state = []"
    by (simp_all add: eagle_def example_state_def)
  have l: "acceptable_extension (extension ?long)"
    "\<not> id_is_in_db ?below (Nature_Bot_Logged_FB_Posts example_state) (str_int (id' ?long))"
    "no_badwords example_state (split CHR '' '' (lower ?below (description ?long)))"
    using eagle_tests by simp_all
  from size_and_duration_bounds_are_strict [OF s1 eagle_tests]
  have "loop_body ?at example_state eagle = Continue example_state"
    by simp
  moreover
  from size_and_duration_bounds_are_strict [OF s2 eagle_tests] d
  have "fb_posts (state_of (loop_body ?below example_state eagle)) = [link eagle]"
    by (simp add: publish_and_log_posts)
  moreover
  from size_and_duration_bounds_are_strict [OF s3 l]
  have "loop_body ?below example_state ?long = Continue example_state"
    by simp
  ultimately show ?thesis
    by simp
qed

text \<open>
  C10: when the parsed response is an object whose \<open>id\<close> is missing or falsy
  (\<open>None\<close> and the empty string among the falsy values),
  \<open>get_post_id_from_json\<close> returns \<open>None\<close>; it returns a value exactly when
  \<open>id\<close> is present and truthy, and then that value; the empty string is never
  returned.
\<close>

theorem get_post_id_from_json_falsy_is_None:
  assumes "json_loads e request = Some (JObject d)"
  shows "(map_of d ''id'' = None \<or> (\<exists>v. map_of d ''id'' = Some v \<and> \<not> truthy v)
            \<longrightarrow> get_post_id_from_json e request = Inr None)
       \<and> (\<forall>v. get_post_id_from_json e request = Inr (Some v)
                 \<longleftrightarrow> map_of d ''id'' = Some v \<and> truthy v)
       \<and> \<not> truthy JNull \<and> \<not> truthy (JString '''')
       \<and> get_post_id_from_json e request \<noteq> Inr (Some (JString ''''))"
  using assms
  by (auto simp: get_post_id_from_json_def split: option.splits)

theorem get_post_id_from_json_witness:
  "get_post_id_from_json example_env error_response = Inr None
   \<and> get_post_id_from_json example_env ok_response = Inr (Some (JString ''42''))"
proof -
  have "get_post_id_from_json example_env error_response = Inr None"
    using get_post_id_from_json_falsy_is_None [OF loads_error_response] by simp
  moreover have "get_post_id_from_json example_env ok_response = Inr (Some (JString ''42''))"
    using get_post_id_from_json_falsy_is_None [OF loads_ok_response] by simp
  ultimately show ?thesis by simp
qed

text \<open>
  C1, as the specification states it: on a page of three candidates of which the
  first two are rejected and the third passes, with a valid post identifier
  returned, the run publishes once, writes one log record and ends without
  asking for a further page. In the code the run publishes once and edits the
  caption, and then \<open>log_to_DB\<close> raises: the tuple has nine values and the
  \<open>INSERT\<close> has ten placeholders. No record is written, and the run ends with
  \<open>ProgrammingError\<close>, without a further page request.
\<close>

theorem end_to_end_log_raises:
  "main_loop example_env 0 example_state =
     Some (Inl ProgrammingError, 0,
       example_state\<lparr>fb_posts := [link eagle],
          fb_captions := [(fb_page_id @ ''_42'', caption (description eagle) (url eagle))]\<rparr>)
   \<and> Nature_Bot_Logged_FB_Posts
         (example_state\<lparr>fb_posts := [link eagle],
            fb_captions := [(fb_page_id @ ''_42'', caption (description eagle) (url eagle))]\<rparr>)
       = [otter_row]"
proof -
  have "process_videos example_env example_state [heron, otter, eagle] =
     (Inl ProgrammingError,
       example_state\<lparr>fb_posts := [link eagle],
          fb_captions := [(fb_page_id @ ''_42'', caption (description eagle) (url eagle))]\<rparr>)"
    by (simp add: heron_continue otter_continue eagle_logs)
  then show ?thesis
    by (subst main_loop.simps) (simp add: example_page example_state_def)
qed

text \<open>
  C4, as the specification states it: a response without a post identifier is
  treated as a rejected candidate and the loop goes on. In the code
  \<open>get_post_id_from_json\<close> returns \<open>None\<close>, and \<open>None in post_to_fb_request\<close>
  raises \<open>TypeError\<close>: the run ends there, the next candidate is not looked at.
\<close>

theorem missing_post_id_raises_TypeError:
  "get_post_id_from_json (example_env\<lparr>requests_post := \<lambda>l. Inr error_response\<rparr>) error_response
     = Inr None
   \<and> process_videos (example_env\<lparr>requests_post := \<lambda>l. Inr error_response\<rparr>) example_state
        [eagle, heron]
     = (Inl TypeError, example_state\<lparr>fb_posts := [link eagle]\<rparr>)
   \<and> main_loop (example_env\<lparr>requests_post := \<lambda>l. Inr error_response\<rparr>) 0 example_state
     = Some (Inl TypeError, 0, example_state\<lparr>fb_posts := [link eagle]\<rparr>)"
proof -
  let ?e = "example_env\<lparr>requests_post := \<lambda>l. Inr error_response\<rparr>"
  have size: "\<And>u. get_file_size ?e u = Inr 5000"
    by (simp add: get_file_size_env [of ?e example_env] size_example)
  have rules: "\<And>v. passes_rules ?e example_state v 5000 = passes_rules example_env example_state v 5000"
    by (simp add: passes_rules_env [of ?e example_env])
  have id: "get_post_id_from_json ?e error_response = Inr None"
    using loads_error_response by (simp add: get_post_id_from_json_def)
  have post: "requests_post ?e (link eagle) = Inr error_response"
    by simp
  have eagle: "loop_body ?e example_state eagle
      = Raise TypeError (example_state\<lparr>fb_posts := [link eagle]\<rparr>)"
    using publish_and_log_no_id [OF post id, of example_state 5000]
    by (simp add: loop_body_passes [OF size] rules eagle_accepted example_state_posts)
  have heron: "loop_body ?e example_state heron = Continue example_state"
    by (simp add: loop_body_passes [OF size] rules heron_rejected)
  have otter: "loop_body ?e example_state otter = Continue example_state"
    by (simp add: loop_body_passes [OF size] rules otter_rejected)
  have page: "get_video_entries ?e 0 = [heron, otter, eagle]"
    by (simp add: example_page)
  have "main_loop ?e 0 example_state
     = Some (Inl TypeError, 0, example_state\<lparr>fb_posts := [link eagle]\<rparr>)"
    by (subst main_loop.simps) (simp add: example_page heron otter eagle)
  with id eagle show ?thesis
    by simp
qed

text \<open>
  C5, as the specification states it: when the source is exhausted before any
  candidate is accepted, the run ends with an empty result, no publish call and
  no log write. The loop of \<open>main\<close> has no exit for exhaustion: it leaves only
  when \<open>process_videos\<close> returns a non-empty tuple or raises. As amended: when
  every candidate of every page has its size fetched and fails one of the five
  tests (the empty pages of an exhausted source included), every page gives the
  empty result and leaves the state as it was, so nothing is published or logged,
  and the loop asks for page after page and never returns.
\<close>

theorem no_acceptance_never_returns:
  assumes "\<forall>n. \<forall>v \<in> set (get_video_entries e n).
             \<exists>s. get_file_size e (url v) = Inr s \<and> \<not> passes_rules e st v s"
  shows "(\<forall>n. process_videos e st (get_video_entries e n) = (Inr [], st))
       \<and> (\<forall>n. main_loop e n st = None)"
proof -
  have pages: "\<And>n. process_videos e st (get_video_entries e n) = (Inr [], st)"
    using assms by (intro process_videos_all_rejected) blast
  then show ?thesis
    using main_loop_diverges [of e st] by blast
qed

theorem no_acceptance_witness:
  "process_videos (example_env\<lparr>get_video_entries := \<lambda>n. [heron, otter]\<rparr>) example_state
      (get_video_entries (example_env\<lparr>get_video_entries := \<lambda>n. [heron, otter]\<rparr>) 7)
     = (Inr [], example_state)
   \<and> main_loop (example_env\<lparr>get_video_entries := \<lambda>n. [heron, otter]\<rparr>) 0 example_state = None"
proof -
  let ?e = "example_env\<lparr>get_video_entries := \<lambda>n. [heron, otter]\<rparr>"
  have size: "\<And>u. get_file_size ?e u = Inr 5000"
    by (simp add: get_file_size_env [of ?e example_env] size_example)
  have rules: "\<And>v. passes_rules ?e example_state v 5000 = passes_rules example_env example_state v 5000"
    by (simp add: passes_rules_env [of ?e example_env])
  have h: "\<forall>n. \<forall>v \<in> set (get_video_entries ?e n).
             \<exists>s. get_file_size ?e (url v) = Inr s \<and> \<not> passes_rules ?e example_state v s"
    using size rules heron_rejected otter_rejected by auto
  from no_acceptance_never_returns [OF h] show ?thesis
    by blast
qed

text \<open>
  The run of the specification's example, two pages without an accepted candidate
  and empty pages from then on, does not return.
\<close>

theorem exhausted_source_counterexample:
  "main_loop (example_env\<lparr>get_video_entries := \<lambda>n. if n < 2 then [heron, otter] else []\<rparr>)
     0 example_state = None"
proof -
  let ?e = "example_env\<lparr>get_video_entries := \<lambda>n. if n < 2 then [heron, otter] else []\<rparr>"
  have size: "\<And>u. get_file_size ?e u = Inr 5000"
    by (simp add: get_file_size_env [of ?e example_env] size_example)
  have rules: "\<And>v. passes_rules ?e example_state v 5000 = passes_rules example_env example_state v 5000"
    by (simp add: passes_rules_env [of ?e example_env])
  have "\<And>n. process_videos ?e example_state (get_video_entries ?e n) = (Inr [], example_state)"
    by (simp add: loop_body_passes [OF size] rules heron_rejected otter_rejected)
  then show ?thesis
    by (rule main_loop_diverges)
qed

text \<open>
  C6, as the specification states it: a size fetch that fails or has no content
  length is a filter error for that candidate, which is skipped without a crash.
  The code catches nothing. As amended: the size is fetched for every candidate
  before any test; when the fetch raises, or the response has no
  \<open>content-length\<close> (then \<open>float(None)\<close> raises \<open>TypeError\<close>), the candidate is
  not accepted and nothing is published or logged for it, and the exception
  ends the page and the run, the rest of the page unexamined.
\<close>

theorem size_fetch_failure_ends_run:
  assumes "requests_get e (url v) = Inl err \<or> (requests_get e (url v) = Inr None \<and> err = TypeError)"
  shows "get_file_size e (url v) = Inl err
       \<and> loop_body e st v = Raise err st
       \<and> process_videos e st (v # vs) = (Inl err, st)
       \<and> (\<forall>n. get_video_entries e n = v # vs \<longrightarrow> main_loop e n st = Some (Inl err, n, st))"
proof -
  from assms have g: "get_file_size e (url v) = Inl err"
    by (auto simp: get_file_size_def)
  then have b: "loop_body e st v = Raise err st"
    by (rule loop_body_probe_fails)
  then have p: "process_videos e st (v # vs) = (Inl err, st)"
    by simp
  have "\<forall>n. get_video_entries e n = v # vs \<longrightarrow> main_loop e n st = Some (Inl err, n, st)"
  proof (intro allI impI)
    fix n
    assume "get_video_entries e n = v # vs"
    with p show "main_loop e n st = Some (Inl err, n, st)"
      by (subst main_loop.simps) simp
  qed
  with g b p show ?thesis
    by simp
qed

theorem size_fetch_failure_witness:
  "process_videos (example_env\<lparr>requests_get := \<lambda>u. Inl ConnectionError\<rparr>) example_state
      [eagle, heron] = (Inl ConnectionError, example_state)
   \<and> main_loop (example_env\<lparr>requests_get := \<lambda>u. Inl ConnectionError\<rparr>) 0 example_state
      = Some (Inl ConnectionError, 0, example_state)"
proof -
  let ?e = "example_env\<lparr>requests_get := \<lambda>u. Inl ConnectionError\<rparr>"
  have h: "\<And>v. requests_get ?e (url v) = Inl ConnectionError
      \<or> (requests_get ?e (url v) = Inr None \<and> ConnectionError = TypeError)"
    by simp
  have page: "get_video_entries ?e 0 = heron # [otter, eagle]"
    by (simp add: example_page)
  from size_fetch_failure_ends_run [OF h, of eagle example_state "[heron]"]
    size_fetch_failure_ends_run [OF h, of heron example_state "[otter, eagle]"] page
  show ?thesis
    by blast
qed

text \<open>
  A run whose first fetch has no content length ends with \<open>TypeError\<close>.
\<close>

theorem missing_content_length_counterexample:
  "main_loop (example_env\<lparr>requests_get := \<lambda>u. Inr None\<rparr>) 0 example_state
     = Some (Inl TypeError, 0, example_state)"
proof -
  let ?e = "example_env\<lparr>requests_get := \<lambda>u. Inr None\<rparr>"
  have "get_file_size ?e (url heron) = Inl TypeError"
    by (simp add: get_file_size_def)
  then have "loop_body ?e example_state heron = Raise TypeError example_state"
    by (rule loop_body_probe_fails)
  then show ?thesis
    by (subst main_loop.simps) (simp add: example_page)
qed

text \<open>
  C8, as the specification states it: when the caption edit fails after a
  successful publish, the record is still logged and the run completes. The code
  catches nothing, so the \<open>GraphAPIError\<close> of \<open>put_object\<close> leaves
  \<open>process_videos\<close> before \<open>log_to_DB\<close> is reached. As amended: a failure of
  the caption edit does not unwind the publish (the post call stays made), and
  it ends the run with the exception: no log record is written, nothing is
  committed, and the rest of the page is not examined.
\<close>

theorem caption_failure_ends_run_without_log:
  assumes "get_file_size e (url v) = Inr s"
    and "passes_rules e st v s"
    and "requests_post e (link v) = Inr text"
    and "get_post_id_from_json e text = Inr (Some (JString pid))"
    and "sublist pid text"
    and "\<not> put_object e (fb_page_id @ ''_'' @ pid) (caption (description v) (url v))"
  shows "loop_body e st v = Raise GraphAPIError (st\<lparr>fb_posts := fb_posts st @ [link v]\<rparr>)
       \<and> process_videos e st (v # vs)
           = (Inl GraphAPIError, st\<lparr>fb_posts := fb_posts st @ [link v]\<rparr>)
       \<and> Nature_Bot_Logged_FB_Posts (snd (process_videos e st (v # vs)))
           = Nature_Bot_Logged_FB_Posts st
       \<and> committed (snd (process_videos e st (v # vs))) = committed st
       \<and> (\<forall>n. get_video_entries e n = v # vs \<longrightarrow>
             main_loop e n st
               = Some (Inl GraphAPIError, n, st\<lparr>fb_posts := fb_posts st @ [link v]\<rparr>))"
proof -
  have b: "loop_body e st v = Raise GraphAPIError (st\<lparr>fb_posts := fb_posts st @ [link v]\<rparr>)"
    using publish_and_log_caption_fails [OF assms(3-6), of st s]
    by (simp add: loop_body_passes [OF assms(1)] assms(2))
  then have p: "process_videos e st (v # vs)
      = (Inl GraphAPIError, st\<lparr>fb_posts := fb_posts st @ [link v]\<rparr>)"
    by simp
  have "\<forall>n. get_video_entries e n = v # vs \<longrightarrow>
      main_loop e n st = Some (Inl GraphAPIError, n, st\<lparr>fb_posts := fb_posts st @ [link v]\<rparr>)"
  proof (intro allI impI)
    fix n
    assume "get_video_entries e n = v # vs"
    with p show "main_loop e n st
        = Some (Inl GraphAPIError, n, st\<lparr>fb_posts := fb_posts st @ [link v]\<rparr>)"
      by (subst main_loop.simps) simp
  qed
  with b p show ?thesis
    by simp
qed

theorem caption_failure_witness:
  "process_videos (example_env\<lparr>put_object := \<lambda>parent message. False\<rparr>) example_state
      [eagle, heron]
     = (Inl GraphAPIError, example_state\<lparr>fb_posts := fb_posts example_state @ [link eagle]\<rparr>)
   \<and> Nature_Bot_Logged_FB_Posts
        (snd (process_videos (example_env\<lparr>put_object := \<lambda>parent message. False\<rparr>)
           example_state [eagle, heron]))
     = Nature_Bot_Logged_FB_Posts example_state"
proof -
  let ?e = "example_env\<lparr>put_object := \<lambda>parent message. False\<rparr>"
  have size: "get_file_size ?e (url eagle) = Inr 5000"
    by (simp add: get_file_size_env [of ?e example_env] size_example)
  have rules: "passes_rules ?e example_state eagle 5000"
    by (simp add: passes_rules_env [of ?e example_env] eagle_accepted)
  have post: "requests_post ?e (link eagle) = Inr ok_response"
    by (simp add: post_example)
  have id: "get_post_id_from_json ?e ok_response = Inr (Some (JString ''42''))"
    using get_post_id_ok by (simp add: get_post_id_from_json_def)
  have no: "\<not> put_object ?e (fb_page_id @ ''_'' @ ''42'') (caption (description eagle) (url eagle))"
    by simp
  from caption_failure_ends_run_without_log [OF size rules post id id_in_ok_response no, of "[heron]"]
  show ?thesis
    by blast
qed

text \<open>
  The example run with a refused caption edit ends with \<open>GraphAPIError\<close>, the
  link posted and the table of logged posts as it was.
\<close>

theorem caption_failure_counterexample:
  "main_loop (example_env\<lparr>put_object := \<lambda>parent message. False\<rparr>) 0 example_state
     = Some (Inl GraphAPIError, 0, example_state\<lparr>fb_posts := [link eagle]\<rparr>)
   \<and> Nature_Bot_Logged_FB_Posts (example_state\<lparr>fb_posts := [link eagle]\<rparr>) = [otter_row]"
proof -
  let ?e = "example_env\<lparr>put_object := \<lambda>parent message. False\<rparr>"
  have size: "\<And>u. get_file_size ?e u = Inr 5000"
    by (simp add: get_file_size_env [of ?e example_env] size_example)
  have rules: "\<And>v. passes_rules ?e example_state v 5000 = passes_rules example_env example_state v 5000"
    by (simp add: passes_rules_env [of ?e example_env])
  have heron: "loop_body ?e example_state heron = Continue example_state"
    by (simp add: loop_body_passes [OF size] rules heron_rejected)
  have otter: "loop_body ?e example_state otter = Continue example_state"
    by (simp add: loop_body_passes [OF size] rules otter_rejected)
  have "main_loop ?e 0 example_state
     = Some (Inl GraphAPIError, 0, example_state\<lparr>fb_posts := [link eagle]\<rparr>)"
    by (subst main_loop.simps) (simp add: example_page heron otter eagle_caption_refused)
  then show ?thesis
    by (simp add: example_state_def)
qed

text \<open>
  C2, as the specification states it: every candidate whose identifier is in the
  table of logged posts is rejected as a duplicate. The size is fetched (line
  196) before the duplicate test (line 201), and a fetch that raises ends the
  run. As amended: for a candidate whose identifier is held by some row of the
  table, nothing is published and nothing is logged, whatever its other
  attributes: when its size fetch succeeds the body says \<open>continue\<close>, and when
  the fetch raises the exception ends the run, the state unchanged either way.
  Every link posted while a page is processed belongs to a candidate whose
  identifier is in no row; the identifiers of the table stay pairwise distinct
  over a page and a run; and an append by \<open>log_to_DB\<close> of a row whose
  identifier the duplicate test did not find keeps them distinct.
\<close>

theorem logged_id_is_never_published:
  "(row \<in> set (Nature_Bot_Logged_FB_Posts st)
      \<and> cell row (ID_column e) = Text (str_int (id' v)) \<longrightarrow>
       (\<forall>s. get_file_size e (url v) = Inr s \<longrightarrow> loop_body e st v = Continue st)
       \<and> (\<forall>err. get_file_size e (url v) = Inl err \<longrightarrow> loop_body e st v = Raise err st)
       \<and> state_of (loop_body e st v) = st)
   \<and> (\<forall>l. l \<in> set (fb_posts (snd (process_videos e st vs))) \<longrightarrow>
         l \<in> set (fb_posts st)
         \<or> (\<exists>w \<in> set vs. l = link w
               \<and> \<not> (\<exists>r \<in> set (Nature_Bot_Logged_FB_Posts st).
                      cell r (ID_column e) = Text (str_int (id' w)))))
   \<and> (id_is_in_db e (Nature_Bot_Logged_FB_Posts st) x
        \<longleftrightarrow> (\<exists>r \<in> set (Nature_Bot_Logged_FB_Posts st). cell r (ID_column e) = Text x))
   \<and> (distinct (map (\<lambda>r. cell r (ID_column e)) (Nature_Bot_Logged_FB_Posts st)) \<longrightarrow>
       distinct (map (\<lambda>r. cell r (ID_column e))
          (Nature_Bot_Logged_FB_Posts (snd (process_videos e st vs))))
       \<and> (\<forall>n y. main_loop e n st = Some y \<longrightarrow>
             distinct (map (\<lambda>r. cell r (ID_column e))
               (Nature_Bot_Logged_FB_Posts (snd (snd y))))))
   \<and> (distinct (map (\<lambda>r. cell r (ID_column e)) (Nature_Bot_Logged_FB_Posts st))
        \<and> \<not> id_is_in_db e (Nature_Bot_Logged_FB_Posts st) x
        \<and> cell t (ID_column e) = Text x
        \<and> log_to_DB st t = Inr st' \<longrightarrow>
       distinct (map (\<lambda>r. cell r (ID_column e)) (Nature_Bot_Logged_FB_Posts st')))"
proof -
  have c1: "row \<in> set (Nature_Bot_Logged_FB_Posts st)
      \<and> cell row (ID_column e) = Text (str_int (id' v)) \<longrightarrow>
       (\<forall>s. get_file_size e (url v) = Inr s \<longrightarrow> loop_body e st v = Continue st)
       \<and> (\<forall>err. get_file_size e (url v) = Inl err \<longrightarrow> loop_body e st v = Raise err st)
       \<and> state_of (loop_body e st v) = st"
  proof
    assume "row \<in> set (Nature_Bot_Logged_FB_Posts st)
      \<and> cell row (ID_column e) = Text (str_int (id' v))"
    then have "id_is_in_db e (Nature_Bot_Logged_FB_Posts st) (str_int (id' v))"
      unfolding id_is_in_db_iff by blast
    then show "(\<forall>s. get_file_size e (url v) = Inr s \<longrightarrow> loop_body e st v = Continue st)
       \<and> (\<forall>err. get_file_size e (url v) = Inl err \<longrightarrow> loop_body e st v = Raise err st)
       \<and> state_of (loop_body e st v) = st"
      by (rule loop_body_duplicate)
  qed
  have c2: "\<forall>l. l \<in> set (fb_posts (snd (process_videos e st vs))) \<longrightarrow>
         l \<in> set (fb_posts st)
         \<or> (\<exists>w \<in> set vs. l = link w
               \<and> \<not> (\<exists>r \<in> set (Nature_Bot_Logged_FB_Posts st).
                      cell r (ID_column e) = Text (str_int (id' w))))"
    using process_videos_posts [of _ e st vs] unfolding id_is_in_db_iff by blast
  have c3: "id_is_in_db e (Nature_Bot_Logged_FB_Posts st) x
        \<longleftrightarrow> (\<exists>r \<in> set (Nature_Bot_Logged_FB_Posts st). cell r (ID_column e) = Text x)"
    by (rule id_is_in_db_iff)
  have pv: "Nature_Bot_Logged_FB_Posts (snd (process_videos e st vs))
      = Nature_Bot_Logged_FB_Posts st"
    using process_videos_tables [of e st vs "fst (process_videos e st vs)" "snd (process_videos e st vs)"]
    by simp
  have ml: "\<And>n y. main_loop e n st = Some y \<Longrightarrow>
      Nature_Bot_Logged_FB_Posts (snd (snd y)) = Nature_Bot_Logged_FB_Posts st"
    using main_loop_Some by blast
  have c4: "distinct (map (\<lambda>r. cell r (ID_column e)) (Nature_Bot_Logged_FB_Posts st)) \<longrightarrow>
       distinct (map (\<lambda>r. cell r (ID_column e))
          (Nature_Bot_Logged_FB_Posts (snd (process_videos e st vs))))
       \<and> (\<forall>n y. main_loop e n st = Some y \<longrightarrow>
             distinct (map (\<lambda>r. cell r (ID_column e))
               (Nature_Bot_Logged_FB_Posts (snd (snd y)))))"
    using pv ml by simp
  have c5: "distinct (map (\<lambda>r. cell r (ID_column e)) (Nature_Bot_Logged_FB_Posts st))
        \<and> \<not> id_is_in_db e (Nature_Bot_Logged_FB_Posts st) x
        \<and> cell t (ID_column e) = Text x
        \<and> log_to_DB st t = Inr st' \<longrightarrow>
       distinct (map (\<lambda>r. cell r (ID_column e)) (Nature_Bot_Logged_FB_Posts st'))"
    using log_to_DB_keeps_distinct [of e st x t st'] by blast
  from c1 c2 c3 c4 c5 show ?thesis
    by blast
qed

theorem logged_id_witness:
  "loop_body example_env
      (example_state\<lparr>Nature_Bot_Logged_FB_Posts := [fox_row, otter_row]\<rparr>) otter
     = Continue (example_state\<lparr>Nature_Bot_Logged_FB_Posts := [fox_row, otter_row]\<rparr>)
   \<and> distinct (map (\<lambda>r. cell r (ID_column example_env))
        (Nature_Bot_Logged_FB_Posts (snd (process_videos example_env
           (example_state\<lparr>Nature_Bot_Logged_FB_Posts := [fox_row, otter_row]\<rparr>)
           [heron, otter, eagle]))))
   \<and> distinct (map (\<lambda>r. cell r (ID_column example_env))
        (Nature_Bot_Logged_FB_Posts
           (example_state\<lparr>Nature_Bot_Logged_FB_Posts := [fox_row, otter_row, eagle_row]\<rparr>)))"
  using logged_id_is_never_published
     [of otter_row "example_state\<lparr>Nature_Bot_Logged_FB_Posts := [fox_row, otter_row]\<rparr>"
         example_env otter "[heron, otter, eagle]" "''3''" eagle_row
         "example_state\<lparr>Nature_Bot_Logged_FB_Posts := [fox_row, otter_row, eagle_row]\<rparr>"]
    two_rows_otter two_rows_distinct eagle_row_fresh size_example [of "url otter"]
  by blast

text \<open>
  A logged candidate whose size fetch raises is not rejected: the run ends with
  the exception.
\<close>

theorem logged_id_failed_fetch_counterexample:
  "otter_row \<in> set (Nature_Bot_Logged_FB_Posts example_state)
   \<and> cell otter_row (ID_column (example_env\<lparr>requests_get := \<lambda>u. Inl ConnectionError\<rparr>))
       = Text (str_int (id' otter))
   \<and> loop_body (example_env\<lparr>requests_get := \<lambda>u. Inl ConnectionError\<rparr>) example_state otter
       = Raise ConnectionError example_state
   \<and> process_videos (example_env\<lparr>requests_get := \<lambda>u. Inl ConnectionError\<rparr>) example_state
        [otter, eagle]
       = (Inl ConnectionError, example_state)"
proof -
  let ?e = "example_env\<lparr>requests_get := \<lambda>u. Inl ConnectionError\<rparr>"
  have "get_file_size ?e (url otter) = Inl ConnectionError"
    by (simp add: get_file_size_def)
  then have "loop_body ?e example_state otter = Raise ConnectionError example_state"
    by (rule loop_body_probe_fails)
  moreover have "otter_row \<in> set (Nature_Bot_Logged_FB_Posts example_state)"
    by (simp add: example_state_def)
  moreover have "cell otter_row (ID_column ?e) = Text (str_int (id' otter))"
    using two_rows_otter(2) by simp
  ultimately show ?thesis
    by simp
qed

text \<open>
  C7, as the specification states it: the description is cut at whitespace. The
  code calls \<open>split(" ")\<close> on the lower-cased description. As amended: for a
  candidate that passes the four other tests, the body says \<open>continue\<close> exactly
  when some token of the lower-cased description, cut at every single space
  character, is equal to an entry of the bad-word table, the entries taken as they
  are, and it posts the link otherwise. The tokens hold no space and joined by
  spaces give the lower-cased description back; other whitespace does not
  separate tokens; on ASCII text the tokens are the lower-cased tokens of the
  description. \<open>a Lovely Eagle soaring\<close> is rejected against \<open>lovely\<close>, and
  \<open>A LOVELY eagle\<close> is accepted against \<open>LOVELY\<close>.
\<close>

theorem content_safety_cuts_at_spaces:
  assumes "get_file_size e (url v) = Inr s"
    and "acceptable_extension (extension v)"
    and "\<not> id_is_in_db e (Nature_Bot_Logged_FB_Posts st) (str_int (id' v))"
    and "s < 1000000"
    and "duration v < 1200"
  shows "(loop_body e st v = Continue st \<longleftrightarrow>
            (\<exists>tok \<in> set (split CHR '' '' (lower e (description v))).
                Text tok \<in> set (concat (Bad_Words st))))
       \<and> (fb_posts (state_of (loop_body e st v)) = fb_posts st @ [link v] \<longleftrightarrow>
            \<not> (\<exists>tok \<in> set (split CHR '' '' (lower e (description v))).
                Text tok \<in> set (concat (Bad_Words st))))
       \<and> join CHR '' '' (split CHR '' '' (lower e (description v))) = lower e (description v)
       \<and> (\<forall>tok \<in> set (split CHR '' '' (lower e (description v))). CHR '' '' \<notin> set tok)
       \<and> (is_ascii (description v) \<longrightarrow>
            split CHR '' '' (lower e (description v))
              = map ascii_lower (split CHR '' '' (description v)))
       \<and> (description v = ''a Lovely Eagle soaring''
            \<and> set (concat (Bad_Words st)) = {Text ''lovely''} \<longrightarrow>
            loop_body e st v = Continue st)
       \<and> (description v = ''A LOVELY eagle''
            \<and> set (concat (Bad_Words st)) = {Text ''LOVELY''} \<longrightarrow>
            fb_posts (state_of (loop_body e st v)) = fb_posts st @ [link v])"
proof -
  let ?tokens = "split CHR '' '' (lower e (description v))"
  let ?bad = "\<exists>tok \<in> set ?tokens. Text tok \<in> set (concat (Bad_Words st))"
  have p: "passes_rules e st v s \<longleftrightarrow> \<not> ?bad"
    using assms by (simp add: passes_rules_def no_badwords_iff)
  have ne: "publish_and_log e st v s \<noteq> Continue st"
  proof
    assume "publish_and_log e st v s = Continue st"
    then have "fb_posts (state_of (publish_and_log e st v s)) = fb_posts st" by simp
    then show False by (simp add: publish_and_log_posts)
  qed
  have lb: "loop_body e st v = (if ?bad then Continue st else publish_and_log e st v s)"
    by (simp add: loop_body_passes [OF assms(1)] p)
  have c1: "loop_body e st v = Continue st \<longleftrightarrow> ?bad"
    using ne by (auto simp: lb)
  have c2: "fb_posts (state_of (loop_body e st v)) = fb_posts st @ [link v] \<longleftrightarrow> \<not> ?bad"
    by (auto simp: lb publish_and_log_posts)
  have c3: "join CHR '' '' ?tokens = lower e (description v)"
    by (rule join_split)
  have c4: "\<forall>tok \<in> set ?tokens. CHR '' '' \<notin> set tok"
    using split_no_sep by blast
  have c5: "is_ascii (description v) \<longrightarrow>
      ?tokens = map ascii_lower (split CHR '' '' (description v))"
    by (simp add: lower_ascii split_ascii_lower)
  have c6: "description v = ''a Lovely Eagle soaring''
      \<and> set (concat (Bad_Words st)) = {Text ''lovely''} \<longrightarrow> loop_body e st v = Continue st"
  proof
    assume h: "description v = ''a Lovely Eagle soaring''
      \<and> set (concat (Bad_Words st)) = {Text ''lovely''}"
    then have "?tokens = [''a'', ''lovely'', ''eagle'', ''soaring'']"
      by (simp add: lower_ascii lovely_examples)
    with h have "?bad" by simp
    with c1 show "loop_body e st v = Continue st" by simp
  qed
  have c7: "description v = ''A LOVELY eagle''
      \<and> set (concat (Bad_Words st)) = {Text ''LOVELY''} \<longrightarrow>
      fb_posts (state_of (loop_body e st v)) = fb_posts st @ [link v]"
  proof
    assume h: "description v = ''A LOVELY eagle''
      \<and> set (concat (Bad_Words st)) = {Text ''LOVELY''}"
    then have "?tokens = [''a'', ''lovely'', ''eagle'']"
      by (simp add: lower_ascii lovely_examples)
    with h have "\<not> ?bad" by simp
    with c2 show "fb_posts (state_of (loop_body e st v)) = fb_posts st @ [link v]" by simp
  qed
  from c1 c2 c3 c4 c5 c6 c7 show ?thesis
    by blast
qed

theorem content_safety_witness:
  "loop_body example_env (example_state\<lparr>Bad_Words := [[Text ''lovely'']]\<rparr>) eagle
     = Continue (example_state\<lparr>Bad_Words := [[Text ''lovely'']]\<rparr>)
   \<and> fb_posts (state_of (loop_body example_env
        (example_state\<lparr>Bad_Words := [[Text ''LOVELY'']]\<rparr>)
        (eagle\<lparr>description := ''A LOVELY eagle''\<rparr>)))
     = [link eagle]"
proof -
  let ?st1 = "example_state\<lparr>Bad_Words := [[Text ''lovely'']]\<rparr>"
  let ?st2 = "example_state\<lparr>Bad_Words := [[Text ''LOVELY'']]\<rparr>"
  let ?v2 = "eagle\<lparr>description := ''A LOVELY eagle''\<rparr>"
  have t1: "acceptable_extension (extension eagle)"
    "\<not> id_is_in_db example_env (Nature_Bot_Logged_FB_Posts ?st1) (str_int (id' eagle))"
    "(5000::real) < 1000000" "duration eagle < 1200"
    using eagle_accepted by (simp_all add: passes_rules_def)
  have t2: "acceptable_extension (extension ?v2)"
    "\<not> id_is_in_db example_env (Nature_Bot_Logged_FB_Posts ?st2) (str_int (id' ?v2))"
    "duration ?v2 < 1200"
    using eagle_accepted by (simp_all add: passes_rules_def)
  have d1: "description eagle = ''a Lovely Eagle soaring''"
    "set (concat (Bad_Words ?st1)) = {Text ''lovely''}"
    by (simp_all add: eagle_def)
  have d2: "description ?v2 = ''A LOVELY eagle''"
    "set (concat (Bad_Words ?st2)) = {Text ''LOVELY''}"
    "fb_posts ?st2 = []" "link ?v2 = link eagle"
    by (simp_all add: example_state_posts)
  from content_safety_cuts_at_spaces [OF size_example t1] d1
  have "loop_body example_env ?st1 eagle = Continue ?st1"
    by blast
  moreover
  from content_safety_cuts_at_spaces [OF size_example t2(1,2) t1(3) t2(3)] d2
  have "fb_posts (state_of (loop_body example_env ?st2 ?v2)) = [link eagle]"
    by simp
  ultimately show ?thesis
    by simp
qed

text \<open>
  With a tab between the two words, the code finds one token and posts the
  candidate, while cutting at whitespace finds the bad word.
\<close>

theorem tab_separated_counterexample:
  "fb_posts (state_of (loop_body example_env
       (example_state\<lparr>Bad_Words := [[Text ''lovely'']]\<rparr>)
       (eagle\<lparr>description := tab_description\<rparr>)))
     = [link eagle]
   \<and> \<not> spec_content_safe example_env [''lovely''] tab_description"
proof -
  let ?st = "example_state\<lparr>Bad_Words := [[Text ''lovely'']]\<rparr>"
  let ?v = "eagle\<lparr>description := tab_description\<rparr>"
  have tok: "split CHR '' '' (lower example_env tab_description) = [tab_description]"
    by (simp add: lower_ascii tab_description_lower) (simp add: tab_description_def)
  have "tab_description \<noteq> ''lovely''"
    by (simp add: tab_description_def)
  with tok have "no_badwords ?st (split CHR '' '' (lower example_env (description ?v)))"
    by (simp add: no_badwords_def)
  with eagle_accepted have "passes_rules example_env ?st ?v 5000"
    by (simp add: passes_rules_def)
  then have "fb_posts (state_of (loop_body example_env ?st ?v)) = [link eagle]"
    using loop_body_passes [OF size_example, where v = ?v and st = ?st]
    by (simp add: publish_and_log_posts example_state_posts)
  moreover have "whitespace_tokens tab_description = [''a'', ''lovely'']"
    by (simp add: whitespace_tokens_def tab_description_def is_whitespace_def)
  then have "\<not> spec_content_safe example_env [''lovely''] tab_description"
    by (simp add: spec_content_safe_def lower_ascii token_examples)
  ultimately show ?thesis
    by simp
qed

end
